theory Spec2Isabelle
  imports Main "HOL-Library.Word"
begin

section \<open>The LDAP proxy of pkg/proxy.go\<close>

text \<open>
  The file pkg/proxy.go implements the handler interface of an LDAP server library on top of
  a registry of identity backends. This theory embeds its handlers as HOL functions and
  proves the properties stated about them.

  Conventions of the embedding:
  \<^item> A Go \<^verbatim>\<open>string\<close> is a \<^typ>\<open>string\<close> (a list of 8-bit characters), a Go
    \<^verbatim>\<open>[]byte\<close> is a list of 8-bit words; the conversions between them are written out.
  \<^item> A Go map that a handler walks with \<^verbatim>\<open>range\<close> is the list of its entries in the
    order in which that loop visits them. Go leaves the order open, so every theorem
    quantifies over all entry lists.
  \<^item> A handler returns its Go results as a sum (\<open>Inl\<close> the error, \<open>Inr\<close> the response),
    together with the context after the call and the events it caused, oldest first:
    log lines, metric updates and calls of backend methods.
  \<^item> A handler that panics returns nothing in Go. Its outcome is \<open>Inl\<close> of a value that
    names the panic, with the context and the events as they are when the panic is raised.
\<close>

subsection \<open>Bytes and strings\<close>

type_synonym byte = "8 word"

definition bytes_of_string :: "string \<Rightarrow> byte list" where
  \<comment> \<open>the conversion \<^verbatim>\<open>[]byte(value)\<close>\<close>
  "bytes_of_string s = map of_char s"

definition string_of_bytes :: "byte list \<Rightarrow> string" where
  \<comment> \<open>the conversion \<^verbatim>\<open>string(req.Password)\<close>\<close>
  "string_of_bytes bs = map (\<lambda>w. char_of (unat w)) bs"

subsection \<open>Types of the LDAP library used by the handlers\<close>

text \<open>
  The library \<^verbatim>\<open>github.com/samuel/go-ldap/ldap\<close> is not part of the repository. Of its
  types the handlers use the four result codes below, the fields \<^verbatim>\<open>Code\<close> and
  \<^verbatim>\<open>MatchedDN\<close> of \<^verbatim>\<open>BaseResponse\<close> (every other field of a response keeps its zero
  value and is left out, but for \<^verbatim>\<open>Results\<close>), the fields \<^verbatim>\<open>DN\<close> and \<^verbatim>\<open>Password\<close>
  of a bind request and \<^verbatim>\<open>BaseDN\<close> and \<^verbatim>\<open>Filter\<close> of a search request. A filter is
  passed on to the backends untouched and printed with \<^verbatim>\<open>%s\<close>; it is modelled by the
  string it prints as.
\<close>

datatype ResultCode =
    ResultSuccess
  | ResultInvalidCredentials
  | ResultInsufficientAccessRights
  | ResultUnwillingToPerform

record BaseResponse =
  Code :: ResultCode
  MatchedDN :: string

record BindRequest =
  bind_DN :: string
  Password :: "byte list"

record SearchRequest =
  BaseDN :: string
  Filter :: string

record SearchResult =
  result_DN :: string
  result_Attributes :: "string \<rightharpoonup> byte list list"

record SearchResponse = BaseResponse +
  Results :: "SearchResult list"

subsection \<open>Errors\<close>

text \<open>
  The handlers return two kinds of Go errors: the package variable
  \<^verbatim>\<open>errInvalidSessionType\<close>, and whatever error a backend returned, handed on as it is
  (\<open>BackendError e\<close> for the error \<open>e\<close> of the backend, which is given by its message).
  \<open>PanicLabelValue v\<close> is not an error that a handler returns: it stands for the panic
  that the metrics library raises in \<^verbatim>\<open>With\<close> when it refuses the label value \<open>v\<close>.
\<close>

datatype error =
    errInvalidSessionType
  | BackendError string
  | PanicLabelValue string

subsection \<open>Backends\<close>

text \<open>
  Modelled from the spec: the type \<^verbatim>\<open>User\<close> and the interface \<^verbatim>\<open>Backend\<close> are declared
  in a file of the package that is not among the sources. The specification gives a user a
  DN and a mapping from attribute names to ordered sequences of string values, and a backend
  the three methods \<^verbatim>\<open>Name\<close>, \<^verbatim>\<open>Authenticate(identity, credential)\<close> returning a truth
  value and \<^verbatim>\<open>GetUsers(filter)\<close> returning a sequence of users or failing with an error.
  The attribute mapping is walked with \<^verbatim>\<open>range\<close>, so it is a list of entries. A method
  is the function from the arguments of a call to what the call returns; a handler calls a
  method of a registered backend at most once for each entry of the registry.
\<close>

record User =
  user_DN :: string
  user_Attributes :: "(string \<times> string list) list"

record Backend =
  Name :: string
  Authenticate :: "string \<Rightarrow> string \<Rightarrow> bool"
  GetUsers :: "string \<Rightarrow> string + User list"

subsection \<open>Proxy, session, context, events\<close>

record LdapProxy =
  backends :: "(string \<times> Backend) list"

record session =
  dn :: string

text \<open>
  An \<^verbatim>\<open>ldap.Context\<close> is an empty interface. The handlers only ask whether its dynamic
  type is \<^verbatim>\<open>*session\<close>; a context of any other type is \<open>OtherContext\<close>.
\<close>

datatype Context =
    SessionPtr session
  | OtherContext

datatype event =
    LogDebug string
  | LogPrint string
  | CounterInc string
  | Observe string string
  | CallAuthenticate string string string
  | CallGetUsers string string

text \<open>
  \<open>CounterInc a\<close> is \<^verbatim>\<open>requestsTotal\<close> incremented under the action label \<open>a\<close>;
  \<open>Observe a b\<close> is a duration recorded in \<^verbatim>\<open>backendActionDuration\<close> under action
  \<open>a\<close> and backend \<open>b\<close> (the duration itself is wall-clock time and not modelled);
  \<open>CallAuthenticate b d pw\<close> and \<open>CallGetUsers b f\<close> are calls of the methods of the
  backend that names itself \<open>b\<close>.

  Both metrics are reached through \<^verbatim>\<open>With\<close>, which panics when the library refuses a
  label value. The action labels are literals of the source, which the library accepts;
  the backend label is whatever \<^verbatim>\<open>backend.Name()\<close> returns. The library is not part of
  the repository, so its check of a label value is a parameter \<open>validLabelValue\<close> of the
  two handlers that record a duration. \<open>ValidString\<close> below is the check that the library
  is documented to make, well-formed UTF-8 as decided by Go's \<^verbatim>\<open>utf8.ValidString\<close>.
\<close>

fun utf8_scan :: "nat \<times> nat \<times> nat \<Rightarrow> nat list \<Rightarrow> bool" where
  \<comment> \<open>the state is the number of continuation bytes still due and the range of the next one\<close>
  "utf8_scan (n, lo, hi) [] = (n = 0)"
| "utf8_scan (n, lo, hi) (b # bs) =
     (if n = 0 then
        (if b < 0x80 then utf8_scan (0, 0x80, 0xBF) bs
         else if 0xC2 \<le> b \<and> b \<le> 0xDF then utf8_scan (1, 0x80, 0xBF) bs
         else if b = 0xE0 then utf8_scan (2, 0xA0, 0xBF) bs
         else if b = 0xED then utf8_scan (2, 0x80, 0x9F) bs
         else if 0xE1 \<le> b \<and> b \<le> 0xEF then utf8_scan (2, 0x80, 0xBF) bs
         else if b = 0xF0 then utf8_scan (3, 0x90, 0xBF) bs
         else if b = 0xF4 then utf8_scan (3, 0x80, 0x8F) bs
         else if 0xF1 \<le> b \<and> b \<le> 0xF3 then utf8_scan (3, 0x80, 0xBF) bs
         else False)
      else lo \<le> b \<and> b \<le> hi \<and> utf8_scan (n - 1, 0x80, 0xBF) bs)"

definition ValidString :: "string \<Rightarrow> bool" where
  "ValidString s = utf8_scan (0, 0x80, 0xBF) (map of_char s)"

record 'a outcome =
  events :: "event list"
  ctx_after :: Context
  returned :: 'a

fun is_backend_call :: "event \<Rightarrow> bool" where
  "is_backend_call (CallAuthenticate b d pw) = True"
| "is_backend_call (CallGetUsers b f) = True"
| "is_backend_call e = False"

definition backend_calls :: "event list \<Rightarrow> event list" where
  "backend_calls evs = filter is_backend_call evs"

subsection \<open>Session logging\<close>

definition LogAuth :: "session \<Rightarrow> string \<Rightarrow> bool \<Rightarrow> event" where
  "LogAuth sess d successful =
     (if successful then LogPrint (d @ '': Authentication successful'')
      else LogPrint (d @ '': Authentication failed''))"

definition Println :: "session \<Rightarrow> string \<Rightarrow> event" where
  "Println sess v = LogPrint (dn sess @ '': '' @ v)"

definition Printf_search :: "session \<Rightarrow> string \<Rightarrow> string \<Rightarrow> event" where
  \<comment> \<open>\<^verbatim>\<open>sess.Printf("Searching dn: '%s', filter: '%s'", req.BaseDN, req.Filter)\<close>\<close>
  "Printf_search sess base flt =
     LogPrint (dn sess @ '': '' @ ''Searching dn: '' @ [CHR 0x27] @ base @ [CHR 0x27]
               @ '', filter: '' @ [CHR 0x27] @ flt @ [CHR 0x27])"

subsection \<open>Connect and Disconnect\<close>

definition NewLdapProxy :: LdapProxy where
  "NewLdapProxy = \<lparr>backends = []\<rparr>"

definition Connect :: "LdapProxy \<Rightarrow> string \<Rightarrow> event list \<times> (error + Context)" where
  \<comment> \<open>the remote address is given by the string it prints as\<close>
  "Connect serverBackend remoteAddr =
     ([LogPrint (''New session from '' @ remoteAddr), CounterInc ''connect''],
      Inr (SessionPtr \<lparr>dn = ''''\<rparr>))"

definition Disconnect :: "LdapProxy \<Rightarrow> Context \<Rightarrow> unit outcome" where
  "Disconnect serverBackend ctx =
     (case ctx of
        OtherContext \<Rightarrow> \<lparr>events = [], ctx_after = ctx, returned = ()\<rparr>
      | SessionPtr sess \<Rightarrow>
          \<lparr>events = [CounterInc ''disconnect'', Println sess ''Session ended''],
           ctx_after = ctx, returned = ()\<rparr>)"

subsection \<open>Bind\<close>

text \<open>
  The loop of \<^verbatim>\<open>Bind\<close> over the registry. Its state is the session, the response under
  construction and the events so far; \<^verbatim>\<open>break\<close> is the branch without a recursive call.
  \<^verbatim>\<open>timer.ObserveDuration()\<close> runs after \<^verbatim>\<open>Authenticate\<close> has returned and before its
  result is tested; when the library refuses the name of the backend the loop ends there
  with a panic (the first component of its result), the session and the response as they
  were.
\<close>

fun bind_loop ::
  "(string \<Rightarrow> bool) \<Rightarrow> Backend list \<Rightarrow> BindRequest \<Rightarrow> session \<times> BaseResponse \<times> event list
     \<Rightarrow> error option \<times> session \<times> BaseResponse \<times> event list" where
  "bind_loop validLabelValue [] req (sess, res, evs) = (None, sess, res, evs)"
| "bind_loop validLabelValue (backend # rest) req (sess, res, evs) =
     (let authenticated = Authenticate backend (bind_DN req) (string_of_bytes (Password req));
          evs = evs @ [CallAuthenticate (Name backend) (bind_DN req)
                         (string_of_bytes (Password req))]
      in if validLabelValue (Name backend)
         then
           (let evs = evs @ [Observe ''auth'' (Name backend)]
            in if authenticated
               then (None,
                     sess\<lparr>dn := bind_DN req\<rparr>,
                     res\<lparr>Code := ResultSuccess, MatchedDN := bind_DN req\<rparr>,
                     evs)
               else bind_loop validLabelValue rest req (sess, res, evs))
         else (Some (PanicLabelValue (Name backend)), sess, res, evs))"

definition Bind ::
  "(string \<Rightarrow> bool) \<Rightarrow> LdapProxy \<Rightarrow> Context \<Rightarrow> BindRequest
     \<Rightarrow> (error + BaseResponse) outcome" where
  "Bind validLabelValue serverBackend ctx req =
     (let evs = [LogDebug (''bind as '' @ bind_DN req)] in
      case ctx of
        OtherContext \<Rightarrow> \<lparr>events = evs, ctx_after = ctx, returned = Inl errInvalidSessionType\<rparr>
      | SessionPtr sess \<Rightarrow>
          (let evs = evs @ [CounterInc ''bind''];
               res = \<lparr>Code = ResultInvalidCredentials, MatchedDN = ''''\<rparr>;
               sess = sess\<lparr>dn := ''''\<rparr>
           in case bind_loop validLabelValue (map snd (backends serverBackend)) req
                     (sess, res, evs) of
                (Some panic, sess, res, evs) \<Rightarrow>
                  \<lparr>events = evs, ctx_after = SessionPtr sess, returned = Inl panic\<rparr>
              | (None, sess, res, evs) \<Rightarrow>
                  (let evs = evs @ [LogAuth sess (bind_DN req) (Code res = ResultSuccess)]
                   in \<lparr>events = evs, ctx_after = SessionPtr sess, returned = Inr res\<rparr>)))"

subsection \<open>The operations that are always refused\<close>

definition Add :: "LdapProxy \<Rightarrow> Context \<Rightarrow> 'req \<Rightarrow> (error + BaseResponse) outcome" where
  "Add serverBackend ctx req =
     \<lparr>events = [CounterInc ''add''], ctx_after = ctx,
      returned = Inr \<lparr>Code = ResultUnwillingToPerform, MatchedDN = ''''\<rparr>\<rparr>"

definition Delete :: "LdapProxy \<Rightarrow> Context \<Rightarrow> 'req \<Rightarrow> (error + BaseResponse) outcome" where
  "Delete serverBackend ctx req =
     \<lparr>events = [CounterInc ''delete''], ctx_after = ctx,
      returned = Inr \<lparr>Code = ResultUnwillingToPerform, MatchedDN = ''''\<rparr>\<rparr>"

definition ExtendedRequest :: "LdapProxy \<Rightarrow> Context \<Rightarrow> 'req \<Rightarrow> (error + BaseResponse) outcome" where
  "ExtendedRequest serverBackend ctx req =
     \<lparr>events = [CounterInc ''extended''], ctx_after = ctx,
      returned = Inr \<lparr>Code = ResultUnwillingToPerform, MatchedDN = ''''\<rparr>\<rparr>"

definition Modify :: "LdapProxy \<Rightarrow> Context \<Rightarrow> 'req \<Rightarrow> (error + BaseResponse) outcome" where
  "Modify serverBackend ctx req =
     \<lparr>events = [CounterInc ''modify''], ctx_after = ctx,
      returned = Inr \<lparr>Code = ResultUnwillingToPerform, MatchedDN = ''''\<rparr>\<rparr>"

definition ModifyDN :: "LdapProxy \<Rightarrow> Context \<Rightarrow> 'req \<Rightarrow> (error + BaseResponse) outcome" where
  "ModifyDN serverBackend ctx req =
     \<lparr>events = [CounterInc ''modify_dn''], ctx_after = ctx,
      returned = Inr \<lparr>Code = ResultUnwillingToPerform, MatchedDN = ''''\<rparr>\<rparr>"

definition PasswordModify :: "LdapProxy \<Rightarrow> Context \<Rightarrow> 'req \<Rightarrow> (error + byte list) outcome" where
  "PasswordModify serverBackend ctx req =
     \<lparr>events = [CounterInc ''modify_password''], ctx_after = ctx, returned = Inr []\<rparr>"

subsection \<open>Search\<close>

definition convertValues :: "string list \<Rightarrow> byte list list" where
  \<comment> \<open>the innermost loop: \<^verbatim>\<open>convertedValues = append(convertedValues, []byte(value))\<close>\<close>
  "convertValues vs = fold (\<lambda>v convertedValues. convertedValues @ [bytes_of_string v]) vs []"

definition toSearchResult :: "User \<Rightarrow> SearchResult" where
  \<comment> \<open>the body of the loop over \<^verbatim>\<open>users\<close>, up to the append\<close>
  "toSearchResult user =
     \<lparr>result_DN = user_DN user,
      result_Attributes =
        fold (\<lambda>(key, vs) attrs. attrs(key \<mapsto> convertValues vs)) (user_Attributes user) Map.empty\<rparr>"

text \<open>
  The loop of \<^verbatim>\<open>Search\<close> over the registry. As in \<^verbatim>\<open>Bind\<close>, the duration is recorded
  after \<^verbatim>\<open>GetUsers\<close> has returned and before its error is tested, and a name that the
  library refuses ends the loop with a panic.
\<close>

fun search_loop ::
  "(string \<Rightarrow> bool) \<Rightarrow> Backend list \<Rightarrow> SearchRequest \<Rightarrow> SearchResult list \<times> event list
     \<Rightarrow> (error + SearchResult list) \<times> event list" where
  "search_loop validLabelValue [] req (searchResults, evs) = (Inr searchResults, evs)"
| "search_loop validLabelValue (backend # rest) req (searchResults, evs) =
     (let got = GetUsers backend (Filter req);
          evs = evs @ [CallGetUsers (Name backend) (Filter req)]
      in if validLabelValue (Name backend)
         then
           (let evs = evs @ [Observe ''search'' (Name backend)]
            in case got of
                 Inl err \<Rightarrow> (Inl (BackendError err), evs)
               | Inr users \<Rightarrow>
                   search_loop validLabelValue rest req
                     (fold (\<lambda>user rs. rs @ [toSearchResult user]) users searchResults, evs))
         else (Inl (PanicLabelValue (Name backend)), evs))"

definition Search ::
  "(string \<Rightarrow> bool) \<Rightarrow> LdapProxy \<Rightarrow> Context \<Rightarrow> SearchRequest
     \<Rightarrow> (error + SearchResponse) outcome" where
  "Search validLabelValue serverBackend ctx req =
     (case ctx of
        OtherContext \<Rightarrow> \<lparr>events = [], ctx_after = ctx, returned = Inl errInvalidSessionType\<rparr>
      | SessionPtr sess \<Rightarrow>
          (let evs = [CounterInc ''search''] in
           if dn sess = ''''
           then \<lparr>events = evs, ctx_after = ctx,
                 returned = Inr \<lparr>Code = ResultInsufficientAccessRights, MatchedDN = '''',
                                 Results = []\<rparr>\<rparr>
           else
             (let evs = evs @ [Printf_search sess (BaseDN req) (Filter req)];
                  res = \<lparr>Code = ResultSuccess, MatchedDN = '''', Results = []\<rparr>
              in case search_loop validLabelValue (map snd (backends serverBackend)) req
                        ([], evs) of
                   (Inl err, evs) \<Rightarrow> \<lparr>events = evs, ctx_after = ctx, returned = Inl err\<rparr>
                 | (Inr searchResults, evs) \<Rightarrow>
                     \<lparr>events = evs, ctx_after = ctx,
                      returned = Inr (res\<lparr>Results := searchResults\<rparr>)\<rparr>)))"

subsection \<open>Whoami\<close>

definition Whoami :: "LdapProxy \<Rightarrow> Context \<Rightarrow> (error + string) outcome" where
  "Whoami serverBackend ctx =
     (case ctx of
        OtherContext \<Rightarrow> \<lparr>events = [], ctx_after = ctx, returned = Inl errInvalidSessionType\<rparr>
      | SessionPtr sess \<Rightarrow>
          \<lparr>events = [CounterInc ''whoami'', Println sess ''Who am I''],
           ctx_after = ctx, returned = Inr (dn sess)\<rparr>)"

subsection \<open>Notions used in the statements\<close>

text \<open>
  \<open>authenticates req b\<close> is the value of the call that the bind loop makes on backend
  \<open>b\<close>; \<open>first_success req bs\<close> is the position, in the visiting order \<open>bs\<close>, of the
  first backend for which that call is true (the length of \<open>bs\<close> when there is none);
  \<open>first_error req bs\<close> is the position of the first backend whose \<^verbatim>\<open>GetUsers\<close> fails.
  \<open>auth_events\<close> and \<open>search_events\<close> are the events of one round of the two loops
  that runs to its end. \<open>valid_names v bs\<close> says that the library accepts the name of
  every backend of \<open>bs\<close> as a label value.
\<close>

definition authenticates :: "BindRequest \<Rightarrow> Backend \<Rightarrow> bool" where
  "authenticates req b = Authenticate b (bind_DN req) (string_of_bytes (Password req))"

definition auth_events :: "BindRequest \<Rightarrow> Backend \<Rightarrow> event list" where
  "auth_events req b =
     [CallAuthenticate (Name b) (bind_DN req) (string_of_bytes (Password req)),
      Observe ''auth'' (Name b)]"

definition first_success :: "BindRequest \<Rightarrow> Backend list \<Rightarrow> nat" where
  "first_success req bs = length (takeWhile (\<lambda>b. \<not> authenticates req b) bs)"

definition first_error :: "SearchRequest \<Rightarrow> Backend list \<Rightarrow> nat" where
  "first_error req bs = length (takeWhile (\<lambda>b. \<not> isl (GetUsers b (Filter req))) bs)"

definition valid_names :: "(string \<Rightarrow> bool) \<Rightarrow> Backend list \<Rightarrow> bool" where
  "valid_names validLabelValue bs = list_all (\<lambda>b. validLabelValue (Name b)) bs"

definition search_events :: "SearchRequest \<Rightarrow> Backend \<Rightarrow> event list" where
  "search_events req b =
     [CallGetUsers (Name b) (Filter req), Observe ''search'' (Name b)]"

text \<open>
  The wire form of a user as the specification words it: the same DN, the same attribute
  names, and under each name the values in their order, each cast to bytes.
\<close>

definition wire_form :: "User \<Rightarrow> SearchResult" where
  "wire_form u =
     \<lparr>result_DN = user_DN u,
      result_Attributes = (\<lambda>key. map_option (map bytes_of_string) (map_of (user_Attributes u) key))\<rparr>"

text \<open>
  The relation between the result of a bind and the session it leaves behind that the
  session state machine is claimed to maintain: a response with the code
  \<open>ResultSuccess\<close> is returned exactly when the bound identity is not the empty string.
\<close>

definition success_iff_identified :: "(error + BaseResponse) outcome \<Rightarrow> bool" where
  "success_iff_identified out =
     (case ctx_after out of
        SessionPtr sess \<Rightarrow>
          (case returned out of Inr res \<Rightarrow> Code res = ResultSuccess | Inl e \<Rightarrow> False)
            = (dn sess \<noteq> [])
      | OtherContext \<Rightarrow> False)"


subsection \<open>Sample backends, users and requests\<close>

definition adminUser :: User where
  "adminUser = \<lparr>user_DN = ''cn=admin,dc=x'',
                 user_Attributes = [(''cn'', [''admin'']), (''mail'', [''admin@x'', ''root@x''])]\<rparr>"

definition alice :: User where
  "alice = \<lparr>user_DN = ''uid=alice,dc=x'', user_Attributes = [(''uid'', [''alice''])]\<rparr>"

definition bob :: User where
  "bob = \<lparr>user_DN = ''uid=bob,dc=x'', user_Attributes = []\<rparr>"

definition ldapBackend :: Backend where
  "ldapBackend = \<lparr>Name = ''ldap'',
                   Authenticate = (\<lambda>d pw. d = ''cn=admin,dc=x'' \<and> pw = ''secret''),
                   GetUsers = (\<lambda>f. Inr [adminUser])\<rparr>"

definition fileBackend :: Backend where
  "fileBackend = \<lparr>Name = ''file'',
                   Authenticate = (\<lambda>d pw. False),
                   GetUsers = (\<lambda>f. Inr [alice, bob])\<rparr>"

definition downBackend :: Backend where
  "downBackend = \<lparr>Name = ''down'',
                   Authenticate = (\<lambda>d pw. False),
                   GetUsers = (\<lambda>f. Inl ''unreachable'')\<rparr>"

definition anonBackend :: Backend where
  \<comment> \<open>a backend that accepts every bind, the anonymous one included\<close>
  "anonBackend = \<lparr>Name = ''anon'',
                   Authenticate = (\<lambda>d pw. True),
                   GetUsers = (\<lambda>f. Inr [])\<rparr>"

definition oddBackend :: Backend where
  \<comment> \<open>a backend whose name ends in the byte FF, which no well-formed UTF-8 contains\<close>
  "oddBackend = \<lparr>Name = ''odd'' @ [CHR 0xFF],
                  Authenticate = (\<lambda>d pw. True),
                  GetUsers = (\<lambda>f. Inr [])\<rparr>"

definition adminBind :: BindRequest where
  "adminBind = \<lparr>bind_DN = ''cn=admin,dc=x'', Password = bytes_of_string ''secret''\<rparr>"

definition wrongBind :: BindRequest where
  "wrongBind = \<lparr>bind_DN = ''cn=admin,dc=x'', Password = bytes_of_string ''guess''\<rparr>"

definition anonymousBind :: BindRequest where
  "anonymousBind = \<lparr>bind_DN = [], Password = []\<rparr>"

definition allEntries :: SearchRequest where
  "allEntries = \<lparr>BaseDN = ''dc=x'', Filter = ''(objectClass=*)''\<rparr>"

section \<open>Properties\<close>

subsection \<open>Auxiliary facts\<close>

lemma char_of_unat_of_char: "char_of (unat (of_char a :: 8 word)) = a"
proof -
  have "(of_char a :: 8 word) = of_nat (of_char a)"
    by (simp add: of_nat_of_char)
  then have "unat (of_char a :: 8 word) = (of_char a :: nat) mod 256"
    by (simp add: unat_of_nat)
  then show ?thesis
    by simp
qed

lemma string_of_bytes_of_string: "string_of_bytes (bytes_of_string s) = s"
  by (induction s) (simp_all add: bytes_of_string_def string_of_bytes_def char_of_unat_of_char)

lemma valid_names_Nil: "valid_names v []"
  by (simp add: valid_names_def)

lemma valid_names_Cons: "valid_names v (b # bs) = (v (Name b) \<and> valid_names v bs)"
  by (simp add: valid_names_def)

lemma valid_names_append: "valid_names v (xs @ ys) = (valid_names v xs \<and> valid_names v ys)"
  by (simp add: valid_names_def)

lemma bind_loop_none:
  "list_all (\<lambda>b. \<not> authenticates req b) bs \<Longrightarrow> valid_names v bs \<Longrightarrow>
   bind_loop v bs req (sess, res, evs) =
     (None, sess, res, evs @ concat (map (auth_events req) bs))"
  by (induction bs arbitrary: evs)
    (simp_all add: authenticates_def auth_events_def valid_names_Cons)

lemma bind_loop_first:
  "list_all (\<lambda>b. \<not> authenticates req b) pre \<Longrightarrow> authenticates req b \<Longrightarrow>
   valid_names v (pre @ [b]) \<Longrightarrow>
   bind_loop v (pre @ b # post) req (sess, res, evs) =
     (None, sess\<lparr>dn := bind_DN req\<rparr>, res\<lparr>Code := ResultSuccess, MatchedDN := bind_DN req\<rparr>,
      evs @ concat (map (auth_events req) (pre @ [b])))"
  by (induction pre arbitrary: evs)
    (simp_all add: authenticates_def auth_events_def valid_names_Cons valid_names_Nil)

lemma bind_loop_panic:
  "list_all (\<lambda>b. \<not> authenticates req b) pre \<Longrightarrow> valid_names v pre \<Longrightarrow> \<not> v (Name b) \<Longrightarrow>
   bind_loop v (pre @ b # post) req (sess, res, evs) =
     (Some (PanicLabelValue (Name b)), sess, res,
      evs @ concat (map (auth_events req) pre)
          @ [CallAuthenticate (Name b) (bind_DN req) (string_of_bytes (Password req))])"
  by (induction pre arbitrary: evs)
    (simp_all add: authenticates_def auth_events_def valid_names_Cons)

lemma bind_loop_result:
  "bind_loop v bs req (sess, res, evs) = (pan, sess', res', evs') \<Longrightarrow>
   (pan = None \<and> sess' = sess\<lparr>dn := bind_DN req\<rparr>
      \<and> res' = res\<lparr>Code := ResultSuccess, MatchedDN := bind_DN req\<rparr>)
   \<or> (sess' = sess \<and> res' = res)"
proof (induction bs arbitrary: evs)
  case Nil
  then show ?case by simp
next
  case (Cons b bs)
  show ?case
  proof (cases "v (Name b)")
    case False
    with Cons.prems show ?thesis by simp
  next
    case valid: True
    show ?thesis
    proof (cases "Authenticate b (bind_DN req) (string_of_bytes (Password req))")
      case True
      with valid Cons.prems show ?thesis by simp
    next
      case False
      with valid Cons.prems have "bind_loop v bs req
          (sess, res,
           evs @ [CallAuthenticate (Name b) (bind_DN req) (string_of_bytes (Password req)),
                  Observe ''auth'' (Name b)])
        = (pan, sess', res', evs')"
        by simp
      then show ?thesis by (rule Cons.IH)
    qed
  qed
qed

lemma backend_calls_append: "backend_calls (xs @ ys) = backend_calls xs @ backend_calls ys"
  by (simp add: backend_calls_def)

lemma backend_calls_Nil: "backend_calls [] = []"
  by (simp add: backend_calls_def)

lemma backend_calls_Cons:
  "backend_calls (e # es) = (if is_backend_call e then e # backend_calls es else backend_calls es)"
  by (simp add: backend_calls_def)

lemma backend_calls_auth_events:
  "backend_calls (concat (map (auth_events req) bs)) =
     map (\<lambda>b. CallAuthenticate (Name b) (bind_DN req) (string_of_bytes (Password req))) bs"
  by (induction bs) (simp_all add: backend_calls_def auth_events_def)

lemma Bind_session_success:
  assumes "map snd (backends p) = pre @ b # post"
    and "list_all (\<lambda>x. \<not> authenticates req x) pre" and "authenticates req b"
    and "valid_names v (pre @ [b])"
  shows "Bind v p (SessionPtr sess) req =
     \<lparr>events = [LogDebug (''bind as '' @ bind_DN req), CounterInc ''bind'']
               @ concat (map (auth_events req) (pre @ [b]))
               @ [LogAuth (sess\<lparr>dn := bind_DN req\<rparr>) (bind_DN req) True],
      ctx_after = SessionPtr (sess\<lparr>dn := bind_DN req\<rparr>),
      returned = Inr \<lparr>Code = ResultSuccess, MatchedDN = bind_DN req\<rparr>\<rparr>"
  by (simp add: Bind_def Let_def assms(1) bind_loop_first [OF assms(2,3,4)])

lemma Bind_session_failure:
  assumes "list_all (\<lambda>x. \<not> authenticates req x) (map snd (backends p))"
    and "valid_names v (map snd (backends p))"
  shows "Bind v p (SessionPtr sess) req =
     \<lparr>events = [LogDebug (''bind as '' @ bind_DN req), CounterInc ''bind'']
               @ concat (map (auth_events req) (map snd (backends p)))
               @ [LogAuth (sess\<lparr>dn := ''''\<rparr>) (bind_DN req) False],
      ctx_after = SessionPtr (sess\<lparr>dn := ''''\<rparr>),
      returned = Inr \<lparr>Code = ResultInvalidCredentials, MatchedDN = ''''\<rparr>\<rparr>"
  by (simp add: Bind_def Let_def bind_loop_none [OF assms])

lemma Bind_session_panic:
  assumes "map snd (backends p) = pre @ b # post"
    and "list_all (\<lambda>x. \<not> authenticates req x) pre" and "valid_names v pre"
    and "\<not> v (Name b)"
  shows "Bind v p (SessionPtr sess) req =
     \<lparr>events = [LogDebug (''bind as '' @ bind_DN req), CounterInc ''bind'']
               @ concat (map (auth_events req) pre)
               @ [CallAuthenticate (Name b) (bind_DN req) (string_of_bytes (Password req))],
      ctx_after = SessionPtr (sess\<lparr>dn := ''''\<rparr>),
      returned = Inl (PanicLabelValue (Name b))\<rparr>"
  by (simp add: Bind_def Let_def assms(1) bind_loop_panic [OF assms(2,3,4)])

lemma Bind_session_result:
  "(returned (Bind v p (SessionPtr sess) req)
        = Inr \<lparr>Code = ResultSuccess, MatchedDN = bind_DN req\<rparr>
      \<and> ctx_after (Bind v p (SessionPtr sess) req) = SessionPtr (sess\<lparr>dn := bind_DN req\<rparr>))
   \<or> (returned (Bind v p (SessionPtr sess) req)
        = Inr \<lparr>Code = ResultInvalidCredentials, MatchedDN = []\<rparr>
      \<and> ctx_after (Bind v p (SessionPtr sess) req) = SessionPtr (sess\<lparr>dn := []\<rparr>))
   \<or> ((\<exists>e. returned (Bind v p (SessionPtr sess) req) = Inl e)
      \<and> ctx_after (Bind v p (SessionPtr sess) req) = SessionPtr (sess\<lparr>dn := []\<rparr>))"
  by (auto simp: Bind_def Let_def split: prod.splits option.splits dest!: bind_loop_result)

lemma first_success_split:
  assumes "b \<in> set bs" and "authenticates req b"
  obtains pre b0 post where "bs = pre @ b0 # post"
    and "list_all (\<lambda>x. \<not> authenticates req x) pre" and "authenticates req b0"
    and "first_success req bs = length pre"
proof -
  let ?P = "\<lambda>x. \<not> authenticates req x"
  from assms have "dropWhile ?P bs \<noteq> []"
    by (auto simp: dropWhile_eq_Nil_conv)
  then obtain b0 post where d: "dropWhile ?P bs = b0 # post"
    by (cases "dropWhile ?P bs") auto
  have 1: "bs = takeWhile ?P bs @ b0 # post"
    using takeWhile_dropWhile_id [of ?P bs] d by simp
  have 2: "list_all ?P (takeWhile ?P bs)"
    by (auto simp: list_all_iff dest: set_takeWhileD)
  have 3: "authenticates req b0"
    using hd_dropWhile [of ?P bs] d by auto
  show thesis
    using that [OF 1 2 3] by (simp add: first_success_def)
qed

lemma convertValues_map: "convertValues vs = map bytes_of_string vs"
proof -
  have "fold (\<lambda>v cv. cv @ [bytes_of_string v]) vs acc = acc @ map bytes_of_string vs" for acc
    by (induction vs arbitrary: acc) simp_all
  then show ?thesis by (simp add: convertValues_def)
qed

lemma fold_append_results:
  "fold (\<lambda>user rs. rs @ [toSearchResult user]) users acc = acc @ map toSearchResult users"
  by (induction users arbitrary: acc) simp_all

lemma fold_attrs:
  "distinct (map fst xs) \<Longrightarrow>
   fold (\<lambda>(key, vs) attrs. attrs(key \<mapsto> g vs)) xs m k =
     (case map_of xs k of None \<Rightarrow> m k | Some vs \<Rightarrow> Some (g vs))"
proof (induction xs arbitrary: m)
  case Nil
  then show ?case by simp
next
  case (Cons x xs)
  obtain key vs where x: "x = (key, vs)" by (cases x)
  from Cons.prems have d: "distinct (map fst xs)" and nk: "key \<notin> fst ` set xs"
    by (simp_all add: x)
  from nk have none: "map_of xs key = None" by (simp add: map_of_eq_None_iff)
  show ?case
    using Cons.IH [OF d, of "m(key \<mapsto> g vs)"] none
    by (auto simp: x split: option.splits)
qed

lemma toSearchResult_wire_form:
  assumes "distinct (map fst (user_Attributes u))"
  shows "toSearchResult u = wire_form u"
proof -
  have "fold (\<lambda>(key, vs) attrs. attrs(key \<mapsto> convertValues vs)) (user_Attributes u) Map.empty
      = (\<lambda>key. map_option (map bytes_of_string) (map_of (user_Attributes u) key))"
    by (rule ext) (simp add: fold_attrs [OF assms] convertValues_map split: option.splits)
  then show ?thesis
    by (simp add: toSearchResult_def wire_form_def)
qed

lemma search_loop_ok:
  "map (\<lambda>b. GetUsers b (Filter req)) bs = map Inr uss \<Longrightarrow> valid_names v bs \<Longrightarrow>
   search_loop v bs req (acc, evs) =
     (Inr (acc @ concat (map (map toSearchResult) uss)),
      evs @ concat (map (search_events req) bs))"
proof (induction bs arbitrary: uss acc evs)
  case Nil
  then show ?case by simp
next
  case (Cons b bs)
  from Cons.prems(1) obtain us rest where uss: "uss = us # rest"
    and b: "GetUsers b (Filter req) = Inr us"
    and rest: "map (\<lambda>b. GetUsers b (Filter req)) bs = map Inr rest"
    by (cases uss) auto
  from Cons.prems(2) have ok: "v (Name b)" and oks: "valid_names v bs"
    by (simp_all add: valid_names_Cons)
  show ?case
    by (simp add: uss b ok Cons.IH [OF rest oks] fold_append_results search_events_def)
qed

lemma search_loop_err:
  "list_all (\<lambda>x. \<not> isl (GetUsers x (Filter req))) pre \<Longrightarrow> GetUsers b (Filter req) = Inl e \<Longrightarrow>
   valid_names v (pre @ [b]) \<Longrightarrow>
   search_loop v (pre @ b # post) req (acc, evs) =
     (Inl (BackendError e), evs @ concat (map (search_events req) (pre @ [b])))"
proof (induction pre arbitrary: acc evs)
  case Nil
  then show ?case by (simp add: search_events_def valid_names_Cons)
next
  case (Cons x pre)
  from Cons.prems(1) obtain us where x: "GetUsers x (Filter req) = Inr us"
    by (cases "GetUsers x (Filter req)") auto
  from Cons.prems(1) have pre: "list_all (\<lambda>x. \<not> isl (GetUsers x (Filter req))) pre"
    by simp
  from Cons.prems(3) have ok: "v (Name x)" and oks: "valid_names v (pre @ [b])"
    by (simp_all add: valid_names_Cons)
  show ?case
    by (simp add: x ok Cons.IH [OF pre Cons.prems(2) oks] search_events_def)
qed

lemma search_loop_panic:
  "list_all (\<lambda>x. \<not> isl (GetUsers x (Filter req))) pre \<Longrightarrow> valid_names v pre \<Longrightarrow>
   \<not> v (Name b) \<Longrightarrow>
   search_loop v (pre @ b # post) req (acc, evs) =
     (Inl (PanicLabelValue (Name b)),
      evs @ concat (map (search_events req) pre) @ [CallGetUsers (Name b) (Filter req)])"
proof (induction pre arbitrary: acc evs)
  case Nil
  then show ?case by simp
next
  case (Cons x pre)
  from Cons.prems(1) obtain us where x: "GetUsers x (Filter req) = Inr us"
    by (cases "GetUsers x (Filter req)") auto
  from Cons.prems(1) have pre: "list_all (\<lambda>x. \<not> isl (GetUsers x (Filter req))) pre"
    by simp
  from Cons.prems(2) have ok: "v (Name x)" and oks: "valid_names v pre"
    by (simp_all add: valid_names_Cons)
  show ?case
    by (simp add: x ok Cons.IH [OF pre oks Cons.prems(3)] search_events_def)
qed

lemma first_error_split:
  assumes "b \<in> set bs" and "isl (GetUsers b (Filter req))"
  obtains pre b0 post where "bs = pre @ b0 # post"
    and "list_all (\<lambda>x. \<not> isl (GetUsers x (Filter req))) pre"
    and "isl (GetUsers b0 (Filter req))"
    and "List.find (\<lambda>x. isl (GetUsers x (Filter req))) bs = Some b0"
    and "first_error req bs = length pre"
proof -
  let ?P = "\<lambda>x. \<not> isl (GetUsers x (Filter req))"
  from assms have "dropWhile ?P bs \<noteq> []"
    by (auto simp: dropWhile_eq_Nil_conv)
  then obtain b0 post where d: "dropWhile ?P bs = b0 # post"
    by (cases "dropWhile ?P bs") auto
  have 1: "bs = takeWhile ?P bs @ b0 # post"
    using takeWhile_dropWhile_id [of ?P bs] d by simp
  have 2: "list_all ?P (takeWhile ?P bs)"
    by (auto simp: list_all_iff dest: set_takeWhileD)
  have 3: "isl (GetUsers b0 (Filter req))"
    using hd_dropWhile [of ?P bs] d by auto
  have "List.find (\<lambda>x. isl (GetUsers x (Filter req))) (pre @ b0 # post) = Some b0"
    if "list_all ?P pre" for pre
    using that 3 by (induction pre) simp_all
  from this [OF 2] have 4: "List.find (\<lambda>x. isl (GetUsers x (Filter req))) bs = Some b0"
    using 1 by simp
  show thesis
    using that [OF 1 2 3 4] by (simp add: first_error_def)
qed

text \<open>
  The panic is a live branch of both handlers: with the check \<open>ValidString\<close> and a backend
  whose name is not well-formed UTF-8, neither returns a response, although the backend
  accepts the bind and its \<^verbatim>\<open>GetUsers\<close> succeeds.
\<close>

lemma ValidString_odd: "\<not> ValidString (Name oddBackend)"
  by (simp add: oddBackend_def ValidString_def)

lemma Bind_panics_on_refused_name:
  "Bind ValidString \<lparr>backends = [(''odd'', oddBackend)]\<rparr> (SessionPtr \<lparr>dn = ''cn=admin,dc=x''\<rparr>)
     adminBind
   = \<lparr>events = [LogDebug ''bind as cn=admin,dc=x'', CounterInc ''bind'',
                CallAuthenticate (''odd'' @ [CHR 0xFF]) ''cn=admin,dc=x'' ''secret''],
      ctx_after = SessionPtr \<lparr>dn = []\<rparr>,
      returned = Inl (PanicLabelValue (''odd'' @ [CHR 0xFF]))\<rparr>"
proof -
  have "Name oddBackend = ''odd'' @ [CHR 0xFF]"
    by (simp add: oddBackend_def)
  moreover have "bind_DN adminBind = ''cn=admin,dc=x''"
    and "string_of_bytes (Password adminBind) = ''secret''"
    by (simp_all add: adminBind_def string_of_bytes_of_string)
  ultimately show ?thesis
    using Bind_session_panic [of "\<lparr>backends = [(''odd'', oddBackend)]\<rparr>" "[]" oddBackend "[]"
        adminBind ValidString "\<lparr>dn = ''cn=admin,dc=x''\<rparr>"] ValidString_odd
    by (simp add: valid_names_Nil)
qed

lemma Search_panics_on_refused_name:
  "returned (Search ValidString \<lparr>backends = [(''odd'', oddBackend)]\<rparr>
               (SessionPtr \<lparr>dn = ''cn=admin,dc=x''\<rparr>) allEntries)
   = Inl (PanicLabelValue (''odd'' @ [CHR 0xFF]))"
proof -
  have "Name oddBackend = ''odd'' @ [CHR 0xFF]"
    by (simp add: oddBackend_def)
  then show ?thesis
    using search_loop_panic [of allEntries "[]" ValidString oddBackend "[]"] ValidString_odd
    by (simp add: Search_def Let_def valid_names_Nil)
qed

lemma ValidString_samples:
  "ValidString (Name ldapBackend)" "ValidString (Name fileBackend)"
  "ValidString (Name downBackend)" "ValidString (Name anonBackend)"
  by (simp_all add: ValidString_def ldapBackend_def fileBackend_def downBackend_def
      anonBackend_def)

subsection \<open>Bind\<close>

text \<open>
  C1. Let some registered backend accept the bind request, that is, let its
  \<^verbatim>\<open>Authenticate(dn, credential)\<close> return true, and let the metrics library accept the
  names of the backends that the loop visits, those up to and including the first one, in
  the order of the iteration, that accepts. Then \<^verbatim>\<open>Bind\<close> on a session returns the
  result code Success with MatchedDN equal to the requested dn and sets the identity of the
  session to that dn. The backends consulted are exactly the visited ones: every backend
  before the first accepting one refused, and no backend after it is called.
\<close>

theorem bind_first_success_wins:
  assumes "(n, b) \<in> set (backends p)" and "authenticates req b"
    and "valid_names v (take (Suc (first_success req (map snd (backends p))))
                            (map snd (backends p)))"
  shows "returned (Bind v p (SessionPtr sess) req)
           = Inr \<lparr>Code = ResultSuccess, MatchedDN = bind_DN req\<rparr>
       \<and> ctx_after (Bind v p (SessionPtr sess) req) = SessionPtr (sess\<lparr>dn := bind_DN req\<rparr>)
       \<and> first_success req (map snd (backends p)) < length (backends p)
       \<and> authenticates req (map snd (backends p) ! first_success req (map snd (backends p)))
       \<and> list_all (\<lambda>x. \<not> authenticates req x)
             (take (first_success req (map snd (backends p))) (map snd (backends p)))
       \<and> backend_calls (events (Bind v p (SessionPtr sess) req))
           = map (\<lambda>x. CallAuthenticate (Name x) (bind_DN req) (string_of_bytes (Password req)))
               (take (Suc (first_success req (map snd (backends p)))) (map snd (backends p)))"
proof -
  from assms(1) have "b \<in> set (map snd (backends p))"
    by force
  then obtain pre b0 post where split: "map snd (backends p) = pre @ b0 # post"
    and pre: "list_all (\<lambda>x. \<not> authenticates req x) pre" and b0: "authenticates req b0"
    and k: "first_success req (map snd (backends p)) = length pre"
    using assms(2) by (rule first_success_split)
  have len: "length pre < length (backends p)"
    using arg_cong [OF split, of length] by simp
  have names: "valid_names v (pre @ [b0])"
    using assms(3) unfolding k by (simp add: split)
  note bind = Bind_session_success [OF split pre b0 names]
  have calls: "backend_calls (events (Bind v p (SessionPtr sess) req))
      = map (\<lambda>x. CallAuthenticate (Name x) (bind_DN req) (string_of_bytes (Password req)))
          (pre @ [b0])"
    unfolding bind
    by (simp add: backend_calls_append backend_calls_auth_events backend_calls_Cons
        backend_calls_Nil LogAuth_def del: map_append)
  show ?thesis
    unfolding k calls
    using pre b0 len
    by (simp add: bind split)
qed

theorem bind_first_success_wins_witness:
  "(''ldap'', ldapBackend)
     \<in> set (backends \<lparr>backends = [(''file'', fileBackend), (''ldap'', ldapBackend),
                                  (''odd'', oddBackend)]\<rparr>)
   \<and> authenticates adminBind ldapBackend
   \<and> valid_names ValidString [fileBackend, ldapBackend]
   \<and> returned (Bind ValidString \<lparr>backends = [(''file'', fileBackend), (''ldap'', ldapBackend),
                                            (''odd'', oddBackend)]\<rparr>
                 (SessionPtr \<lparr>dn = []\<rparr>) adminBind)
       = Inr \<lparr>Code = ResultSuccess, MatchedDN = ''cn=admin,dc=x''\<rparr>
   \<and> ctx_after (Bind ValidString \<lparr>backends = [(''file'', fileBackend), (''ldap'', ldapBackend),
                                             (''odd'', oddBackend)]\<rparr>
                  (SessionPtr \<lparr>dn = []\<rparr>) adminBind)
       = SessionPtr \<lparr>dn = ''cn=admin,dc=x''\<rparr>
   \<and> backend_calls (events (Bind ValidString
                              \<lparr>backends = [(''file'', fileBackend), (''ldap'', ldapBackend),
                                           (''odd'', oddBackend)]\<rparr>
                              (SessionPtr \<lparr>dn = []\<rparr>) adminBind))
       = [CallAuthenticate ''file'' ''cn=admin,dc=x'' ''secret'',
          CallAuthenticate ''ldap'' ''cn=admin,dc=x'' ''secret'']"
proof -
  have auth: "authenticates adminBind ldapBackend"
    by (simp add: authenticates_def adminBind_def ldapBackend_def string_of_bytes_of_string)
  have refuse: "\<not> authenticates adminBind fileBackend"
    by (simp add: authenticates_def fileBackend_def)
  have mem: "(''ldap'', ldapBackend)
     \<in> set (backends \<lparr>backends = [(''file'', fileBackend), (''ldap'', ldapBackend),
                                  (''odd'', oddBackend)]\<rparr>)"
    by simp
  have valid: "valid_names ValidString [fileBackend, ldapBackend]"
    by (simp add: valid_names_def ValidString_samples)
  have visited: "valid_names ValidString
     (take (Suc (first_success adminBind
                   (map snd (backends \<lparr>backends = [(''file'', fileBackend),
                      (''ldap'', ldapBackend), (''odd'', oddBackend)]\<rparr>))))
           (map snd (backends \<lparr>backends = [(''file'', fileBackend), (''ldap'', ldapBackend),
                                           (''odd'', oddBackend)]\<rparr>)))"
    using valid by (simp add: first_success_def refuse auth)
  have names: "Name fileBackend = ''file''" "Name ldapBackend = ''ldap''"
    by (simp_all add: fileBackend_def ldapBackend_def)
  have req: "bind_DN adminBind = ''cn=admin,dc=x''"
    "string_of_bytes (Password adminBind) = ''secret''"
    by (simp_all add: adminBind_def string_of_bytes_of_string)
  show ?thesis
    using bind_first_success_wins [OF mem auth visited, of "\<lparr>dn = []\<rparr>"] auth valid
    by (simp add: first_success_def refuse names req)
qed

text \<open>
  C2. Let no registered backend accept the bind request, and let the metrics library accept
  the names of the registered backends, all of which the loop visits; the registry without
  any backend is a case of this. Then \<^verbatim>\<open>Bind\<close> on a session returns the result code
  InvalidCredentials and the identity of the session is the empty string afterwards.
  Moreover every bind starts from the empty identity: whatever identity the session had
  before, the events, the result and the session after the call are those of the same
  bind on a session whose identity is empty, so a failed re-bind retains nothing.
\<close>

theorem bind_failure_resets_identity:
  "Bind v p (SessionPtr sess) req = Bind v p (SessionPtr (sess\<lparr>dn := []\<rparr>)) req
   \<and> (list_all (\<lambda>(n, b). \<not> authenticates req b) (backends p)
        \<and> valid_names v (map snd (backends p)) \<longrightarrow>
        returned (Bind v p (SessionPtr sess) req)
          = Inr \<lparr>Code = ResultInvalidCredentials, MatchedDN = []\<rparr>
      \<and> ctx_after (Bind v p (SessionPtr sess) req) = SessionPtr (sess\<lparr>dn := []\<rparr>))"
proof -
  have reset: "Bind v p (SessionPtr sess) req = Bind v p (SessionPtr (sess\<lparr>dn := []\<rparr>)) req"
    by (simp add: Bind_def Let_def)
  have "returned (Bind v p (SessionPtr sess) req)
          = Inr \<lparr>Code = ResultInvalidCredentials, MatchedDN = []\<rparr>
      \<and> ctx_after (Bind v p (SessionPtr sess) req) = SessionPtr (sess\<lparr>dn := []\<rparr>)"
    if "list_all (\<lambda>(n, b). \<not> authenticates req b) (backends p)"
      and names: "valid_names v (map snd (backends p))"
  proof -
    from that(1) have "list_all (\<lambda>x. \<not> authenticates req x) (map snd (backends p))"
      by (auto simp: list_all_iff)
    then show ?thesis
      by (simp add: Bind_session_failure [OF _ names])
  qed
  with reset show ?thesis
    by blast
qed

theorem bind_failure_resets_identity_witness:
  "list_all (\<lambda>(n, b). \<not> authenticates adminBind b) (backends NewLdapProxy)
   \<and> valid_names ValidString (map snd (backends NewLdapProxy))
   \<and> returned (Bind ValidString NewLdapProxy (SessionPtr \<lparr>dn = []\<rparr>) adminBind)
       = Inr \<lparr>Code = ResultInvalidCredentials, MatchedDN = []\<rparr>
   \<and> ctx_after (Bind ValidString NewLdapProxy (SessionPtr \<lparr>dn = []\<rparr>) adminBind)
       = SessionPtr \<lparr>dn = []\<rparr>
   \<and> list_all (\<lambda>(n, b). \<not> authenticates wrongBind b)
        (backends \<lparr>backends = [(''file'', fileBackend), (''ldap'', ldapBackend)]\<rparr>)
   \<and> valid_names ValidString
        (map snd (backends \<lparr>backends = [(''file'', fileBackend), (''ldap'', ldapBackend)]\<rparr>))
   \<and> returned (Bind ValidString \<lparr>backends = [(''file'', fileBackend), (''ldap'', ldapBackend)]\<rparr>
                 (SessionPtr \<lparr>dn = ''cn=admin,dc=x''\<rparr>) wrongBind)
       = Inr \<lparr>Code = ResultInvalidCredentials, MatchedDN = []\<rparr>
   \<and> ctx_after (Bind ValidString
                  \<lparr>backends = [(''file'', fileBackend), (''ldap'', ldapBackend)]\<rparr>
                  (SessionPtr \<lparr>dn = ''cn=admin,dc=x''\<rparr>) wrongBind)
       = SessionPtr \<lparr>dn = []\<rparr>"
proof -
  have none: "list_all (\<lambda>(n, b). \<not> authenticates adminBind b) (backends NewLdapProxy)"
    "valid_names ValidString (map snd (backends NewLdapProxy))"
    by (simp_all add: NewLdapProxy_def valid_names_def)
  have wrong: "list_all (\<lambda>(n, b). \<not> authenticates wrongBind b)
        (backends \<lparr>backends = [(''file'', fileBackend), (''ldap'', ldapBackend)]\<rparr>)"
    by (simp add: authenticates_def wrongBind_def fileBackend_def ldapBackend_def
        string_of_bytes_of_string)
  have valid: "valid_names ValidString
        (map snd (backends \<lparr>backends = [(''file'', fileBackend), (''ldap'', ldapBackend)]\<rparr>))"
    by (simp add: valid_names_def ValidString_samples)
  show ?thesis
    using none wrong valid
      bind_failure_resets_identity
        [of ValidString NewLdapProxy "\<lparr>dn = []\<rparr>" adminBind, THEN conjunct2]
      bind_failure_resets_identity
        [of ValidString "\<lparr>backends = [(''file'', fileBackend), (''ldap'', ldapBackend)]\<rparr>"
            "\<lparr>dn = ''cn=admin,dc=x''\<rparr>" wrongBind, THEN conjunct2]
    by simp
qed

text \<open>
  C7, as stated: after every \<^verbatim>\<open>Bind\<close> on a session the result code is Success if and
  only if the identity of the session is not empty. This does not hold for a bind with the
  empty dn that a backend accepts: the code is Success and the identity stays empty.
\<close>

theorem bind_success_iff_identified_counterexample:
  "returned (Bind ValidString \<lparr>backends = [(''anon'', anonBackend)]\<rparr> (SessionPtr \<lparr>dn = []\<rparr>)
              anonymousBind)
     = Inr \<lparr>Code = ResultSuccess, MatchedDN = []\<rparr>
   \<and> ctx_after (Bind ValidString \<lparr>backends = [(''anon'', anonBackend)]\<rparr> (SessionPtr \<lparr>dn = []\<rparr>)
                  anonymousBind)
     = SessionPtr \<lparr>dn = []\<rparr>
   \<and> \<not> success_iff_identified
         (Bind ValidString \<lparr>backends = [(''anon'', anonBackend)]\<rparr> (SessionPtr \<lparr>dn = []\<rparr>)
            anonymousBind)"
  by (simp add: success_iff_identified_def Bind_def Let_def anonBackend_def anonymousBind_def
      string_of_bytes_def ValidString_def)

text \<open>
  C7, as the code has it. After every \<^verbatim>\<open>Bind\<close> on a session that returns a response, if
  the code of the response is Success the identity of the session is the requested dn, and
  otherwise it is the empty string; after a \<^verbatim>\<open>Bind\<close> that returns no response the
  identity is the empty string as well. Hence, whenever the requested dn is not empty, a
  response with the code Success is returned if and only if the identity of the session is
  not empty afterwards.
\<close>

theorem bind_sets_identity_to_requested_dn:
  "(\<forall>res. returned (Bind v p (SessionPtr sess) req) = Inr res \<longrightarrow>
       ctx_after (Bind v p (SessionPtr sess) req)
         = SessionPtr (sess\<lparr>dn := (if Code res = ResultSuccess then bind_DN req else [])\<rparr>))
   \<and> (\<forall>e. returned (Bind v p (SessionPtr sess) req) = Inl e \<longrightarrow>
       ctx_after (Bind v p (SessionPtr sess) req) = SessionPtr (sess\<lparr>dn := []\<rparr>))
   \<and> (bind_DN req \<noteq> [] \<longrightarrow> success_iff_identified (Bind v p (SessionPtr sess) req))"
  using Bind_session_result [of v p sess req]
  by (auto simp: success_iff_identified_def)

theorem bind_sets_identity_to_requested_dn_witness:
  "returned (Bind ValidString \<lparr>backends = [(''file'', fileBackend), (''ldap'', ldapBackend)]\<rparr>
              (SessionPtr \<lparr>dn = []\<rparr>) adminBind)
     = Inr \<lparr>Code = ResultSuccess, MatchedDN = ''cn=admin,dc=x''\<rparr>
   \<and> ctx_after (Bind ValidString \<lparr>backends = [(''file'', fileBackend), (''ldap'', ldapBackend)]\<rparr>
                  (SessionPtr \<lparr>dn = []\<rparr>) adminBind)
     = SessionPtr \<lparr>dn = ''cn=admin,dc=x''\<rparr>
   \<and> returned (Bind ValidString \<lparr>backends = [(''odd'', oddBackend)]\<rparr>
                 (SessionPtr \<lparr>dn = ''cn=admin,dc=x''\<rparr>) adminBind)
     = Inl (PanicLabelValue (''odd'' @ [CHR 0xFF]))
   \<and> ctx_after (Bind ValidString \<lparr>backends = [(''odd'', oddBackend)]\<rparr>
                  (SessionPtr \<lparr>dn = ''cn=admin,dc=x''\<rparr>) adminBind)
     = SessionPtr \<lparr>dn = []\<rparr>
   \<and> bind_DN adminBind \<noteq> []
   \<and> success_iff_identified
       (Bind ValidString \<lparr>backends = [(''file'', fileBackend), (''ldap'', ldapBackend)]\<rparr>
          (SessionPtr \<lparr>dn = []\<rparr>) adminBind)
   \<and> success_iff_identified
       (Bind ValidString \<lparr>backends = [(''odd'', oddBackend)]\<rparr>
          (SessionPtr \<lparr>dn = ''cn=admin,dc=x''\<rparr>) adminBind)"
proof -
  have accepted: "returned (Bind ValidString
         \<lparr>backends = [(''file'', fileBackend), (''ldap'', ldapBackend)]\<rparr>
         (SessionPtr \<lparr>dn = []\<rparr>) adminBind)
     = Inr \<lparr>Code = ResultSuccess, MatchedDN = ''cn=admin,dc=x''\<rparr>"
    by (simp add: Bind_def Let_def fileBackend_def ldapBackend_def adminBind_def
        string_of_bytes_of_string ValidString_def)
  have panic: "returned (Bind ValidString \<lparr>backends = [(''odd'', oddBackend)]\<rparr>
                 (SessionPtr \<lparr>dn = ''cn=admin,dc=x''\<rparr>) adminBind)
     = Inl (PanicLabelValue (''odd'' @ [CHR 0xFF]))"
    by (simp add: Bind_panics_on_refused_name)
  have dn: "bind_DN adminBind \<noteq> []"
    by (simp add: adminBind_def)
  note t1 = bind_sets_identity_to_requested_dn
      [of ValidString "\<lparr>backends = [(''file'', fileBackend), (''ldap'', ldapBackend)]\<rparr>"
          "\<lparr>dn = []\<rparr>" adminBind]
  note t2 = bind_sets_identity_to_requested_dn
      [of ValidString "\<lparr>backends = [(''odd'', oddBackend)]\<rparr>"
          "\<lparr>dn = ''cn=admin,dc=x''\<rparr>" adminBind]
  have "ctx_after (Bind ValidString
         \<lparr>backends = [(''file'', fileBackend), (''ldap'', ldapBackend)]\<rparr>
         (SessionPtr \<lparr>dn = []\<rparr>) adminBind)
     = SessionPtr \<lparr>dn = ''cn=admin,dc=x''\<rparr>"
    using t1 [THEN conjunct1, rule_format, OF accepted] by (simp add: adminBind_def)
  moreover have "ctx_after (Bind ValidString \<lparr>backends = [(''odd'', oddBackend)]\<rparr>
                  (SessionPtr \<lparr>dn = ''cn=admin,dc=x''\<rparr>) adminBind)
     = SessionPtr \<lparr>dn = []\<rparr>"
    using t2 [THEN conjunct2, THEN conjunct1, rule_format, OF panic] by simp
  moreover have "success_iff_identified
       (Bind ValidString \<lparr>backends = [(''file'', fileBackend), (''ldap'', ldapBackend)]\<rparr>
          (SessionPtr \<lparr>dn = []\<rparr>) adminBind)"
    using t1 [THEN conjunct2, THEN conjunct2, rule_format, OF dn] .
  moreover have "success_iff_identified
       (Bind ValidString \<lparr>backends = [(''odd'', oddBackend)]\<rparr>
          (SessionPtr \<lparr>dn = ''cn=admin,dc=x''\<rparr>) adminBind)"
    using t2 [THEN conjunct2, THEN conjunct2, rule_format, OF dn] .
  ultimately show ?thesis
    using accepted panic dn by blast
qed

text \<open>
  C10. Let \<^verbatim>\<open>Bind\<close> be called on a session with the empty dn, let some registered
  backend accept that request, and let the metrics library accept the names of the backends
  that the loop visits. Then the response has the code Success and the empty MatchedDN, the
  identity of the session is still the empty string, and a \<^verbatim>\<open>Search\<close> on the session as
  the bind left it is refused with InsufficientAccessRights. The search is refused before
  the registry is looked at, so this holds for every registry \<open>p'\<close> at the time of the
  search, the one of the bind in any visiting order among them.
\<close>

theorem anonymous_bind_leaves_session_unauthenticated:
  assumes "bind_DN req = []" and "(n, b) \<in> set (backends p)" and "authenticates req b"
    and "valid_names v (take (Suc (first_success req (map snd (backends p))))
                            (map snd (backends p)))"
  shows "returned (Bind v p (SessionPtr sess) req) = Inr \<lparr>Code = ResultSuccess, MatchedDN = []\<rparr>
       \<and> ctx_after (Bind v p (SessionPtr sess) req) = SessionPtr (sess\<lparr>dn := []\<rparr>)
       \<and> returned (Search v p' (ctx_after (Bind v p (SessionPtr sess) req)) sreq)
           = Inr \<lparr>Code = ResultInsufficientAccessRights, MatchedDN = [], Results = []\<rparr>"
proof -
  from assms(2) have "b \<in> set (map snd (backends p))"
    by force
  then obtain pre b0 post where split: "map snd (backends p) = pre @ b0 # post"
    and pre: "list_all (\<lambda>x. \<not> authenticates req x) pre" and b0: "authenticates req b0"
    and k: "first_success req (map snd (backends p)) = length pre"
    using assms(3) by (rule first_success_split)
  have names: "valid_names v (pre @ [b0])"
    using assms(4) unfolding k by (simp add: split)
  show ?thesis
    by (simp add: Bind_session_success [OF split pre b0 names] assms(1) Search_def)
qed

theorem anonymous_bind_leaves_session_unauthenticated_witness:
  "bind_DN anonymousBind = []
   \<and> (''anon'', anonBackend) \<in> set (backends \<lparr>backends = [(''file'', fileBackend),
                                                          (''anon'', anonBackend)]\<rparr>)
   \<and> authenticates anonymousBind anonBackend
   \<and> valid_names ValidString [fileBackend, anonBackend]
   \<and> returned (Bind ValidString \<lparr>backends = [(''file'', fileBackend), (''anon'', anonBackend)]\<rparr>
                 (SessionPtr \<lparr>dn = []\<rparr>) anonymousBind)
       = Inr \<lparr>Code = ResultSuccess, MatchedDN = []\<rparr>
   \<and> ctx_after (Bind ValidString
                  \<lparr>backends = [(''file'', fileBackend), (''anon'', anonBackend)]\<rparr>
                  (SessionPtr \<lparr>dn = []\<rparr>) anonymousBind)
       = SessionPtr \<lparr>dn = []\<rparr>
   \<and> returned (Search ValidString
                 \<lparr>backends = [(''file'', fileBackend), (''anon'', anonBackend)]\<rparr>
                 (ctx_after (Bind ValidString
                               \<lparr>backends = [(''file'', fileBackend), (''anon'', anonBackend)]\<rparr>
                               (SessionPtr \<lparr>dn = []\<rparr>) anonymousBind))
                 allEntries)
       = Inr \<lparr>Code = ResultInsufficientAccessRights, MatchedDN = [], Results = []\<rparr>"
proof -
  have empty: "bind_DN anonymousBind = []"
    by (simp add: anonymousBind_def)
  have mem: "(''anon'', anonBackend) \<in> set (backends \<lparr>backends = [(''file'', fileBackend),
                                                          (''anon'', anonBackend)]\<rparr>)"
    by simp
  have auth: "authenticates anonymousBind anonBackend"
    by (simp add: authenticates_def anonBackend_def)
  have refuse: "\<not> authenticates anonymousBind fileBackend"
    by (simp add: authenticates_def fileBackend_def)
  have valid: "valid_names ValidString [fileBackend, anonBackend]"
    by (simp add: valid_names_def ValidString_samples)
  have visited: "valid_names ValidString
     (take (Suc (first_success anonymousBind
                   (map snd (backends \<lparr>backends = [(''file'', fileBackend),
                      (''anon'', anonBackend)]\<rparr>))))
           (map snd (backends \<lparr>backends = [(''file'', fileBackend),
                                           (''anon'', anonBackend)]\<rparr>)))"
    using valid by (simp add: first_success_def refuse auth)
  show ?thesis
    using empty mem auth valid
      anonymous_bind_leaves_session_unauthenticated
        [OF empty mem auth visited, of "\<lparr>dn = []\<rparr>"
           "\<lparr>backends = [(''file'', fileBackend), (''anon'', anonBackend)]\<rparr>" allEntries]
    by auto
qed

subsection \<open>The refused operations\<close>

text \<open>
  C3. Whatever the context (a session with or without an identity, or no session at all)
  and whatever the request, \<^verbatim>\<open>Add\<close>, \<^verbatim>\<open>Delete\<close>, \<^verbatim>\<open>Modify\<close>, \<^verbatim>\<open>ModifyDN\<close> and
  \<^verbatim>\<open>ExtendedRequest\<close> return a response with the code UnwillingToPerform and no error,
  \<^verbatim>\<open>PasswordModify\<close> returns the empty byte sequence and no error, and none of the six
  calls a method of a backend.
\<close>

theorem mutating_operations_refused:
  "returned (Add p ctx r1) = Inr \<lparr>Code = ResultUnwillingToPerform, MatchedDN = []\<rparr>
   \<and> returned (Delete p ctx r2) = Inr \<lparr>Code = ResultUnwillingToPerform, MatchedDN = []\<rparr>
   \<and> returned (Modify p ctx r3) = Inr \<lparr>Code = ResultUnwillingToPerform, MatchedDN = []\<rparr>
   \<and> returned (ModifyDN p ctx r4) = Inr \<lparr>Code = ResultUnwillingToPerform, MatchedDN = []\<rparr>
   \<and> returned (ExtendedRequest p ctx r5)
       = Inr \<lparr>Code = ResultUnwillingToPerform, MatchedDN = []\<rparr>
   \<and> returned (PasswordModify p ctx r6) = Inr []
   \<and> backend_calls (events (Add p ctx r1)) = []
   \<and> backend_calls (events (Delete p ctx r2)) = []
   \<and> backend_calls (events (Modify p ctx r3)) = []
   \<and> backend_calls (events (ModifyDN p ctx r4)) = []
   \<and> backend_calls (events (ExtendedRequest p ctx r5)) = []
   \<and> backend_calls (events (PasswordModify p ctx r6)) = []"
  by (simp add: Add_def Delete_def Modify_def ModifyDN_def ExtendedRequest_def
      PasswordModify_def backend_calls_def)

subsection \<open>Search\<close>

text \<open>
  C4. A \<^verbatim>\<open>Search\<close> on a session whose identity is the empty string returns a response
  with the code InsufficientAccessRights and no error, and calls no method of any backend,
  whatever label values the metrics library accepts.
\<close>

theorem search_unauthenticated_denied:
  assumes "dn sess = []"
  shows "returned (Search v p (SessionPtr sess) req)
           = Inr \<lparr>Code = ResultInsufficientAccessRights, MatchedDN = [], Results = []\<rparr>
       \<and> backend_calls (events (Search v p (SessionPtr sess) req)) = []"
  using assms by (simp add: Search_def backend_calls_def)

theorem search_unauthenticated_denied_witness:
  "dn \<lparr>dn = []\<rparr> = []
   \<and> returned (Search ValidString \<lparr>backends = [(''ldap'', ldapBackend), (''down'', downBackend)]\<rparr>
                 (SessionPtr \<lparr>dn = []\<rparr>) allEntries)
       = Inr \<lparr>Code = ResultInsufficientAccessRights, MatchedDN = [], Results = []\<rparr>
   \<and> backend_calls (events (Search ValidString
                              \<lparr>backends = [(''ldap'', ldapBackend), (''down'', downBackend)]\<rparr>
                              (SessionPtr \<lparr>dn = []\<rparr>) allEntries)) = []"
  using search_unauthenticated_denied
      [of "\<lparr>dn = []\<rparr>" ValidString
          "\<lparr>backends = [(''ldap'', ldapBackend), (''down'', downBackend)]\<rparr>" allEntries]
  by simp

text \<open>
  C5. Let the session have an identity, let the \<^verbatim>\<open>GetUsers(filter)\<close> of some registered
  backend return an error, and let the metrics library accept the names of the backends
  that the loop visits, those up to and including the first one whose \<^verbatim>\<open>GetUsers\<close>
  fails. Then \<^verbatim>\<open>Search\<close> returns an error and no response: the error is, unchanged, the
  one returned by the first backend in the order of the iteration whose \<^verbatim>\<open>GetUsers\<close>
  fails, and the results of the backends visited before it are dropped.
\<close>

theorem search_aborts_on_backend_error:
  assumes "dn sess \<noteq> []" and "(n, b) \<in> set (backends p)"
    and "GetUsers b (Filter req) = Inl e"
    and "valid_names v (take (Suc (first_error req (map snd (backends p))))
                            (map snd (backends p)))"
  shows "\<exists>b0 e0. List.find (\<lambda>x. isl (GetUsers x (Filter req))) (map snd (backends p)) = Some b0
           \<and> GetUsers b0 (Filter req) = Inl e0
           \<and> returned (Search v p (SessionPtr sess) req) = Inl (BackendError e0)"
proof -
  from assms(2) have "b \<in> set (map snd (backends p))"
    by force
  moreover from assms(3) have "isl (GetUsers b (Filter req))"
    by simp
  ultimately obtain pre b0 post where split: "map snd (backends p) = pre @ b0 # post"
    and pre: "list_all (\<lambda>x. \<not> isl (GetUsers x (Filter req))) pre"
    and b0: "isl (GetUsers b0 (Filter req))"
    and f: "List.find (\<lambda>x. isl (GetUsers x (Filter req))) (map snd (backends p)) = Some b0"
    and k: "first_error req (map snd (backends p)) = length pre"
    by (rule first_error_split)
  from b0 obtain e0 where e0: "GetUsers b0 (Filter req) = Inl e0"
    by (cases "GetUsers b0 (Filter req)") auto
  have names: "valid_names v (pre @ [b0])"
    using assms(4) unfolding k by (simp add: split)
  have "returned (Search v p (SessionPtr sess) req) = Inl (BackendError e0)"
    using assms(1) by (simp add: Search_def Let_def split search_loop_err [OF pre e0 names])
  with f e0 show ?thesis
    by blast
qed

theorem search_aborts_on_backend_error_witness:
  "dn \<lparr>dn = ''cn=admin,dc=x''\<rparr> \<noteq> []
   \<and> GetUsers downBackend (Filter allEntries) = Inl ''unreachable''
   \<and> valid_names ValidString [fileBackend, downBackend]
   \<and> returned (Search ValidString \<lparr>backends = [(''down'', downBackend), (''file'', fileBackend)]\<rparr>
                 (SessionPtr \<lparr>dn = ''cn=admin,dc=x''\<rparr>) allEntries)
       = Inl (BackendError ''unreachable'')
   \<and> returned (Search ValidString
                 \<lparr>backends = [(''file'', fileBackend), (''down'', downBackend),
                              (''odd'', oddBackend)]\<rparr>
                 (SessionPtr \<lparr>dn = ''cn=admin,dc=x''\<rparr>) allEntries)
       = Inl (BackendError ''unreachable'')"
proof -
  have sess: "dn \<lparr>dn = ''cn=admin,dc=x''\<rparr> \<noteq> []"
    by simp
  have down: "GetUsers downBackend (Filter allEntries) = Inl ''unreachable''"
    by (simp add: downBackend_def)
  have users: "\<not> isl (GetUsers fileBackend (Filter allEntries))"
    by (simp add: fileBackend_def)
  have valid: "valid_names ValidString [fileBackend, downBackend]"
    by (simp add: valid_names_def ValidString_samples)
  have m1: "(''down'', downBackend)
      \<in> set (backends \<lparr>backends = [(''down'', downBackend), (''file'', fileBackend)]\<rparr>)"
    by simp
  have m2: "(''down'', downBackend)
      \<in> set (backends \<lparr>backends = [(''file'', fileBackend), (''down'', downBackend),
                                   (''odd'', oddBackend)]\<rparr>)"
    by simp
  have v1: "valid_names ValidString
      (take (Suc (first_error allEntries
                    (map snd (backends \<lparr>backends = [(''down'', downBackend),
                       (''file'', fileBackend)]\<rparr>))))
            (map snd (backends \<lparr>backends = [(''down'', downBackend),
                                            (''file'', fileBackend)]\<rparr>)))"
    using valid by (simp add: first_error_def down valid_names_def)
  have v2: "valid_names ValidString
      (take (Suc (first_error allEntries
                    (map snd (backends \<lparr>backends = [(''file'', fileBackend),
                       (''down'', downBackend), (''odd'', oddBackend)]\<rparr>))))
            (map snd (backends \<lparr>backends = [(''file'', fileBackend), (''down'', downBackend),
                                            (''odd'', oddBackend)]\<rparr>)))"
    using valid by (simp add: first_error_def down users valid_names_def)
  show ?thesis
    using sess down valid
      search_aborts_on_backend_error [OF sess m1 down v1]
      search_aborts_on_backend_error [OF sess m2 down v2]
    by (auto simp: users)
qed

text \<open>
  C6. Let the session have an identity, let the \<^verbatim>\<open>GetUsers(filter)\<close> of every
  registered backend succeed, the backend at position \<open>i\<close> of the iteration returning the
  users \<open>uss ! i\<close>, each with distinct attribute names, and let the metrics library accept
  the names of the registered backends, all of which the loop visits. Then \<^verbatim>\<open>Search\<close>
  returns a response with the code Success whose results are the wire forms of all these
  users, in the order of the backends and, for one backend, in the order of its users, with
  nothing removed and nothing reordered. The wire form keeps the DN and the attribute names
  and casts each value to bytes. With no backend registered the response is Success with no
  results.
\<close>

theorem search_concatenates_results:
  assumes "dn sess \<noteq> []"
    and "map (\<lambda>b. GetUsers b (Filter req)) (map snd (backends p)) = map Inr uss"
    and "list_all (list_all (\<lambda>u. distinct (map fst (user_Attributes u)))) uss"
    and "valid_names v (map snd (backends p))"
  shows "returned (Search v p (SessionPtr sess) req)
           = Inr \<lparr>Code = ResultSuccess, MatchedDN = [],
                 Results = concat (map (map wire_form) uss)\<rparr>"
proof -
  have eq: "map (map toSearchResult) uss = map (map wire_form) uss"
    using assms(3) by (auto simp: list_all_iff toSearchResult_wire_form)
  have "returned (Search v p (SessionPtr sess) req)
           = Inr \<lparr>Code = ResultSuccess, MatchedDN = [],
                 Results = concat (map (map toSearchResult) uss)\<rparr>"
    using assms(1) by (simp add: Search_def Let_def search_loop_ok [OF assms(2,4)])
  then show ?thesis
    by (simp only: eq)
qed

theorem search_concatenates_results_witness:
  "dn \<lparr>dn = ''cn=admin,dc=x''\<rparr> \<noteq> []
   \<and> valid_names ValidString [ldapBackend, fileBackend]
   \<and> returned (Search ValidString \<lparr>backends = [(''ldap'', ldapBackend), (''file'', fileBackend)]\<rparr>
                 (SessionPtr \<lparr>dn = ''cn=admin,dc=x''\<rparr>) allEntries)
       = Inr \<lparr>Code = ResultSuccess, MatchedDN = [],
             Results = [wire_form adminUser, wire_form alice, wire_form bob]\<rparr>
   \<and> returned (Search ValidString NewLdapProxy (SessionPtr \<lparr>dn = ''cn=admin,dc=x''\<rparr>) allEntries)
       = Inr \<lparr>Code = ResultSuccess, MatchedDN = [], Results = []\<rparr>"
proof -
  have sess: "dn \<lparr>dn = ''cn=admin,dc=x''\<rparr> \<noteq> []"
    by simp
  have users: "map (\<lambda>b. GetUsers b (Filter allEntries))
       (map snd (backends \<lparr>backends = [(''ldap'', ldapBackend), (''file'', fileBackend)]\<rparr>))
     = map Inr [[adminUser], [alice, bob]]"
    by (simp add: ldapBackend_def fileBackend_def)
  have keys: "list_all (list_all (\<lambda>u. distinct (map fst (user_Attributes u))))
       [[adminUser], [alice, bob]]"
    by (simp add: adminUser_def alice_def bob_def)
  have valid: "valid_names ValidString [ldapBackend, fileBackend]"
    by (simp add: valid_names_def ValidString_samples)
  have names: "valid_names ValidString
       (map snd (backends \<lparr>backends = [(''ldap'', ldapBackend), (''file'', fileBackend)]\<rparr>))"
    using valid by simp
  have none: "map (\<lambda>b. GetUsers b (Filter allEntries)) (map snd (backends NewLdapProxy))
     = map Inr []"
    by (simp add: NewLdapProxy_def)
  have nokeys: "list_all (list_all (\<lambda>u. distinct (map fst (user_Attributes u)))) []"
    by simp
  have nonames: "valid_names ValidString (map snd (backends NewLdapProxy))"
    by (simp add: NewLdapProxy_def valid_names_def)
  show ?thesis
    using sess valid
      search_concatenates_results [OF sess users keys names]
      search_concatenates_results [OF sess none nokeys nonames]
    by simp
qed

subsection \<open>Contexts that are not sessions\<close>

text \<open>
  C8, as stated: every operation invoked with a context that is not a session signals the
  error InvalidSessionType. This does not hold for \<^verbatim>\<open>Add\<close>, which does not look at its
  context and returns its usual response without an error.
\<close>

theorem invalid_context_counterexample:
  "returned (Add NewLdapProxy OtherContext ())
     = Inr \<lparr>Code = ResultUnwillingToPerform, MatchedDN = []\<rparr>
   \<and> returned (Add NewLdapProxy OtherContext ()) \<noteq> Inl errInvalidSessionType"
  by (simp add: Add_def)

text \<open>
  C8, as the code has it. Invoked with a context that is not a session, \<^verbatim>\<open>Bind\<close>,
  \<^verbatim>\<open>Search\<close> and \<^verbatim>\<open>Whoami\<close> return the error InvalidSessionType and no response, which
  sets it apart from every result code, and call no backend; \<^verbatim>\<open>Disconnect\<close>, which has
  no result, returns without any effect; \<^verbatim>\<open>Add\<close>, \<^verbatim>\<open>Delete\<close>, \<^verbatim>\<open>Modify\<close>,
  \<^verbatim>\<open>ModifyDN\<close>, \<^verbatim>\<open>ExtendedRequest\<close> and \<^verbatim>\<open>PasswordModify\<close> do not inspect the context
  and return their fixed response without an error.
\<close>

theorem invalid_context_handling:
  "returned (Bind v p OtherContext breq) = Inl errInvalidSessionType
   \<and> returned (Search v p OtherContext sreq) = Inl errInvalidSessionType
   \<and> returned (Whoami p OtherContext) = Inl errInvalidSessionType
   \<and> backend_calls (events (Bind v p OtherContext breq)) = []
   \<and> backend_calls (events (Search v p OtherContext sreq)) = []
   \<and> backend_calls (events (Whoami p OtherContext)) = []
   \<and> events (Disconnect p OtherContext) = []
   \<and> returned (Add p OtherContext r1) = Inr \<lparr>Code = ResultUnwillingToPerform, MatchedDN = []\<rparr>
   \<and> returned (Delete p OtherContext r2)
       = Inr \<lparr>Code = ResultUnwillingToPerform, MatchedDN = []\<rparr>
   \<and> returned (Modify p OtherContext r3)
       = Inr \<lparr>Code = ResultUnwillingToPerform, MatchedDN = []\<rparr>
   \<and> returned (ModifyDN p OtherContext r4)
       = Inr \<lparr>Code = ResultUnwillingToPerform, MatchedDN = []\<rparr>
   \<and> returned (ExtendedRequest p OtherContext r5)
       = Inr \<lparr>Code = ResultUnwillingToPerform, MatchedDN = []\<rparr>
   \<and> returned (PasswordModify p OtherContext r6) = Inr []"
  by (simp add: Bind_def Search_def Whoami_def Disconnect_def Add_def Delete_def Modify_def
      ModifyDN_def ExtendedRequest_def PasswordModify_def backend_calls_def)

subsection \<open>The frame of the session identity\<close>

text \<open>
  C9. Only \<^verbatim>\<open>Bind\<close> writes the identity of a session: after a call of \<^verbatim>\<open>Search\<close>,
  \<^verbatim>\<open>Whoami\<close>, \<^verbatim>\<open>Disconnect\<close>, \<^verbatim>\<open>Add\<close>, \<^verbatim>\<open>Delete\<close>, \<^verbatim>\<open>Modify\<close>, \<^verbatim>\<open>ModifyDN\<close>,
  \<^verbatim>\<open>ExtendedRequest\<close> or \<^verbatim>\<open>PasswordModify\<close> the context, and with it the identity of
  the session, is what it was before the call; for \<^verbatim>\<open>Search\<close> this includes the calls
  that end in an error or a panic.
\<close>

theorem identity_written_only_by_bind:
  "ctx_after (Search v p ctx sreq) = ctx
   \<and> ctx_after (Whoami p ctx) = ctx
   \<and> ctx_after (Disconnect p ctx) = ctx
   \<and> ctx_after (Add p ctx r1) = ctx
   \<and> ctx_after (Delete p ctx r2) = ctx
   \<and> ctx_after (Modify p ctx r3) = ctx
   \<and> ctx_after (ModifyDN p ctx r4) = ctx
   \<and> ctx_after (ExtendedRequest p ctx r5) = ctx
   \<and> ctx_after (PasswordModify p ctx r6) = ctx"
proof -
  have "ctx_after (Search v p ctx sreq) = ctx"
    by (simp add: Search_def Let_def split: Context.splits prod.splits sum.splits)
  moreover have "ctx_after (Whoami p ctx) = ctx"
    by (simp add: Whoami_def split: Context.splits)
  moreover have "ctx_after (Disconnect p ctx) = ctx"
    by (simp add: Disconnect_def split: Context.splits)
  ultimately show ?thesis
    by (simp add: Add_def Delete_def Modify_def ModifyDN_def ExtendedRequest_def
        PasswordModify_def)
qed

end
